theory Spec2Isabelle
  imports Main "HOL-Library.Word"
begin

section \<open>IEEE 754 binary64 values\<close>

text \<open>
  The program computes with the C++ type \<^verbatim>\<open>double\<close>: a 64-bit pattern made of a sign
  bit, an 11-bit biased exponent and a 52-bit fraction. The three fields are kept as they
  lie in the pattern, so every value of the record is a bit pattern the machine can hold
  and the other way round.
\<close>

record double =
  sign :: bool
  expo :: "11 word"
  frac :: "52 word"

definition is_nan :: "double \<Rightarrow> bool" where
  "is_nan x \<longleftrightarrow> expo x = 2047 \<and> frac x \<noteq> 0"

definition is_infinity :: "double \<Rightarrow> bool" where
  "is_infinity x \<longleftrightarrow> expo x = 2047 \<and> frac x = 0"

definition is_finite :: "double \<Rightarrow> bool" where
  "is_finite x \<longleftrightarrow> expo x \<noteq> 2047"

definition is_zero :: "double \<Rightarrow> bool" where
  "is_zero x \<longleftrightarrow> expo x = 0 \<and> frac x = 0"

text \<open>
  A finite pattern denotes \<open>\<plusminus> mant * 2 ^ (bexp - 1075)\<close>: a normal number carries the
  hidden leading bit, a subnormal one (exponent field 0) does not and uses exponent 1.
\<close>

definition mant :: "double \<Rightarrow> nat" where
  "mant x = (if expo x = 0 then unat (frac x) else 2 ^ 52 + unat (frac x))"

definition bexp :: "double \<Rightarrow> nat" where
  "bexp x = (if expo x = 0 then 1 else unat (expo x))"

definition signed_mant :: "double \<Rightarrow> int" where
  "signed_mant x = (if sign x then - int (mant x) else int (mant x))"

text \<open>
  The value of a finite double counted in units of \<open>2 ^ - 1074\<close>, the smallest positive
  double: always a whole number.
\<close>

definition magnitude :: "double \<Rightarrow> nat" where
  "magnitude x = mant x * 2 ^ (bexp x - 1)"

definition units :: "double \<Rightarrow> int" where
  "units x = (if sign x then - int (magnitude x) else int (magnitude x))"

definition signed_zero :: "bool \<Rightarrow> double" where
  "signed_zero s = \<lparr>sign = s, expo = 0, frac = 0\<rparr>"

definition infinity :: "bool \<Rightarrow> double" where
  "infinity s = \<lparr>sign = s, expo = 2047, frac = 0\<rparr>"

text \<open>
  The NaN an invalid operation produces. Which payload and sign the hardware picks
  differs between machines; nothing below depends on them, only on \<open>is_nan\<close>.
\<close>

definition quiet_nan :: double where
  "quiet_nan = \<lparr>sign = False, expo = 2047, frac = 2 ^ 51\<rparr>"

subsection \<open>Rounding to nearest, ties to even\<close>

fun bit_length :: "nat \<Rightarrow> nat" where
  "bit_length n = (if n = 0 then 0 else Suc (bit_length (n div 2)))"

declare bit_length.simps [simp del]

text \<open>\<open>round_even m k\<close> is \<open>m / 2 ^ k\<close> rounded to the nearest integer, a tie to the even one.\<close>

definition round_even :: "nat \<Rightarrow> nat \<Rightarrow> nat" where
  "round_even m k =
     (let q = m div 2 ^ k; r = m mod 2 ^ k
      in if 2 ^ k < 2 * r \<or> (2 * r = 2 ^ k \<and> odd q) then q + 1 else q)"

text \<open>
  \<open>pack s m e\<close> stores the significand \<open>m < 2 ^ 53\<close> with biased exponent \<open>e\<close>: below
  \<open>2 ^ 52\<close> it is a subnormal number (or zero), an exponent past 2046 overflows to infinity.
\<close>

definition pack :: "bool \<Rightarrow> nat \<Rightarrow> nat \<Rightarrow> double" where
  "pack s m e =
     (if m < 2 ^ 52 then \<lparr>sign = s, expo = 0, frac = of_nat m\<rparr>
      else if 2047 \<le> e then infinity s
      else \<lparr>sign = s, expo = of_nat e, frac = of_nat (m - 2 ^ 52)\<rparr>)"

text \<open>
  \<open>round_to_double s m e\<close> is the double nearest to \<open>\<plusminus> m * 2 ^ (e - 1075)\<close>, for
  \<open>1 \<le> e\<close>. A magnitude of at most 53 bits is representable as it is and is only
  shifted into place; a longer one loses its low bits, rounded to nearest even.
\<close>

definition round_to_double :: "bool \<Rightarrow> nat \<Rightarrow> nat \<Rightarrow> double" where
  "round_to_double s m e =
     (let l = bit_length m in
      if l \<le> 53 then
        (let d = min (53 - l) (e - 1) in pack s (m * 2 ^ d) (e - d))
      else
        (let k = l - 53; q = round_even m k in
         if q = 2 ^ 53 then pack s (2 ^ 52) (e + k + 1) else pack s q (e + k)))"

subsection \<open>Arithmetic and comparison\<close>

text \<open>
  The exact sum of two finite doubles, as an integer multiple of the smaller operand's
  unit \<open>2 ^ (min (bexp x) (bexp y) - 1075)\<close>.
\<close>

definition exact_sum :: "double \<Rightarrow> double \<Rightarrow> int" where
  "exact_sum x y =
     (let e = min (bexp x) (bexp y)
      in signed_mant x * 2 ^ (bexp x - e) + signed_mant y * 2 ^ (bexp y - e))"

text \<open>
  The sum of two finite doubles is the exact sum, rounded. An exact zero sum is \<open>+0\<close>
  unless both operands are negative (then both are \<open>-0\<close>).
\<close>

definition add_finite :: "double \<Rightarrow> double \<Rightarrow> double" where
  "add_finite x y =
     (let n = exact_sum x y
      in if n = 0 then signed_zero (sign x \<and> sign y)
         else round_to_double (n < 0) (nat \<bar>n\<bar>) (min (bexp x) (bexp y)))"

text \<open>The C++ expression \<^verbatim>\<open>x + y\<close> on doubles.\<close>

definition dadd :: "double \<Rightarrow> double \<Rightarrow> double" where
  "dadd x y =
     (if is_nan x \<or> is_nan y then quiet_nan
      else if is_infinity x then
        (if is_infinity y \<and> sign x \<noteq> sign y then quiet_nan else x)
      else if is_infinity y then y
      else add_finite x y)"

text \<open>Unary minus flips the sign bit.\<close>

definition dneg :: "double \<Rightarrow> double" where
  "dneg x = x\<lparr>sign := \<not> sign x\<rparr>"

text \<open>The C++ expression \<^verbatim>\<open>x - y\<close>: IEEE 754 defines it as \<open>x + (- y)\<close>.\<close>

definition dsub :: "double \<Rightarrow> double \<Rightarrow> double" where
  "dsub x y = dadd x (dneg y)"

text \<open>
  The C++ comparison \<^verbatim>\<open>x == y\<close>: false when an operand is NaN, true for two zeros of
  any signs, and otherwise equality of the patterns.
\<close>

definition deq :: "double \<Rightarrow> double \<Rightarrow> bool" where
  "deq x y \<longleftrightarrow> \<not> is_nan x \<and> \<not> is_nan y \<and> (x = y \<or> (is_zero x \<and> is_zero y))"

text \<open>The implicit conversion of an \<^verbatim>\<open>int\<close> to \<^verbatim>\<open>double\<close> (always exact).\<close>

definition double_of_int :: "32 word \<Rightarrow> double" where
  "double_of_int i =
     (let v = sint i
      in if v = 0 then signed_zero False else round_to_double (v < 0) (nat \<bar>v\<bar>) 1075)"

subsection \<open>The literals of the program\<close>

text \<open>
  The compiler replaces a decimal literal by the nearest double. The patterns are
  \<^verbatim>\<open>0x3FF199999999999A\<close>, \<^verbatim>\<open>0x4003333333333333\<close> and \<^verbatim>\<open>0x400999999999999A\<close>.
\<close>

definition lit_1_1 :: double where
  "lit_1_1 = \<lparr>sign = False, expo = 1023, frac = 0x199999999999A\<rparr>"

definition lit_2_4 :: double where
  "lit_2_4 = \<lparr>sign = False, expo = 1024, frac = 0x3333333333333\<rparr>"

definition lit_3_2 :: double where
  "lit_3_2 = \<lparr>sign = False, expo = 1024, frac = 0x999999999999A\<rparr>"

text \<open>
  \<open>nearest_to x p q\<close>: the positive finite double \<open>x\<close> lies less than half a unit
  in its last place from the fraction \<open>p / q\<close>.
\<close>

definition nearest_to :: "double \<Rightarrow> nat \<Rightarrow> nat \<Rightarrow> bool" where
  "nearest_to x p q \<longleftrightarrow>
     is_finite x \<and> \<not> sign x \<and> bexp x \<le> 1075 \<and> 0 < q \<and>
     2 * \<bar>int (mant x) * int q - int p * 2 ^ (1075 - bexp x)\<bar> < int q"

definition dbl_max :: double where
  "dbl_max = \<lparr>sign = False, expo = 2046, frac = 0xFFFFFFFFFFFFF\<rparr>"

section \<open>Standard output\<close>

text \<open>
  Standard output is the text written so far. \<^verbatim>\<open>std::endl\<close> writes a line feed (and
  flushes, which the text does not show).
\<close>

type_synonym stdout = string

definition endl :: string where
  "endl = [CHR 0x0A]"

definition digit_char :: "nat \<Rightarrow> char" where
  "digit_char d = ''0123456789'' ! d"

fun show_nat :: "nat \<Rightarrow> string" where
  "show_nat n = (if n < 10 then [digit_char n] else show_nat (n div 10) @ [digit_char (n mod 10)])"

declare show_nat.simps [simp del]

text \<open>\<^verbatim>\<open>std::cout << i\<close> for an \<^verbatim>\<open>int\<close>: its decimal digits, a minus sign first if negative.\<close>

definition show_int :: "int \<Rightarrow> string" where
  "show_int i = (if i < 0 then CHR ''-'' # show_nat (nat (- i)) else show_nat (nat i))"

subsection \<open>Default formatting of a double\<close>

text \<open>
  \<^verbatim>\<open>std::cout << x\<close> for a \<^verbatim>\<open>double\<close>, with the stream's default flags, formats like
  \<^verbatim>\<open>printf("%g", x)\<close>: six significant decimal digits, correctly rounded; fixed
  notation when the decimal exponent \<open>X\<close> satisfies \<open>-4 \<le> X < 6\<close> and scientific
  notation otherwise; trailing zeros of the fraction removed, and the point with them when
  nothing is left behind it.
\<close>

fun dec_length :: "nat \<Rightarrow> nat" where
  "dec_length n = (if n < 10 then 1 else Suc (dec_length (n div 10)))"

declare dec_length.simps [simp del]

text \<open>\<open>scale_up p q k\<close>: the least \<open>k' \<ge> k\<close> with \<open>q \<le> p * 10 ^ k'\<close>.\<close>

function scale_up :: "nat \<Rightarrow> nat \<Rightarrow> nat \<Rightarrow> nat" where
  "scale_up p q k = (if p = 0 \<or> q \<le> p * 10 ^ k then k else scale_up p q (Suc k))"
  by pat_completeness auto
termination
proof (relation "measure (\<lambda>(p, q, k). q - p * 10 ^ k)")
  show "wf (measure (\<lambda>(p, q, k). q - p * 10 ^ k))" by simp
next
  fix p q k :: nat
  assume "\<not> (p = 0 \<or> q \<le> p * 10 ^ k)"
  then have pos: "0 < p" and below: "p * 10 ^ k < q" by simp_all
  from pos have "p * 10 ^ k < p * 10 ^ Suc k" by simp
  with below have "q - p * 10 ^ Suc k < q - p * 10 ^ k" by arith
  then show "((p, q, Suc k), (p, q, k)) \<in> measure (\<lambda>(p, q, k). q - p * 10 ^ k)"
    by simp
qed

declare scale_up.simps [simp del]

text \<open>The decimal exponent of the positive fraction \<open>p / q\<close>: \<open>10 ^ X \<le> p / q < 10 ^ (X + 1)\<close>.\<close>

definition dec_exponent :: "nat \<Rightarrow> nat \<Rightarrow> int" where
  "dec_exponent p q =
     (if q \<le> p then int (dec_length (p div q)) - 1 else - int (scale_up p q 0))"

text \<open>\<open>div_even a b\<close> is \<open>a / b\<close> rounded to the nearest integer, a tie to the even one.\<close>

definition div_even :: "nat \<Rightarrow> nat \<Rightarrow> nat" where
  "div_even a b =
     (let q = a div b; r = a mod b
      in if b < 2 * r \<or> (2 * r = b \<and> odd q) then q + 1 else q)"

text \<open>The first \<open>prec\<close> significant digits of \<open>p / q\<close>, as a number, for decimal exponent \<open>x\<close>.\<close>

definition scaled_digits :: "nat \<Rightarrow> nat \<Rightarrow> nat \<Rightarrow> int \<Rightarrow> nat" where
  "scaled_digits prec p q x =
     (let s = int prec - 1 - x
      in if 0 \<le> s then div_even (p * 10 ^ nat s) q else div_even p (q * 10 ^ nat (- s)))"

definition strip_zeros :: "string \<Rightarrow> string" where
  "strip_zeros s = rev (dropWhile (\<lambda>c. c = CHR ''0'') (rev s))"

definition with_point :: "string \<Rightarrow> string \<Rightarrow> string" where
  "with_point ip fp = (if fp = [] then ip else ip @ CHR ''.'' # fp)"

definition show_exponent :: "int \<Rightarrow> string" where
  "show_exponent x =
     CHR ''e'' # (if x < 0 then CHR ''-'' else CHR ''+'') #
       (if \<bar>x\<bar> < 10 then CHR ''0'' # show_nat (nat \<bar>x\<bar>) else show_nat (nat \<bar>x\<bar>))"

definition show_general :: "nat \<Rightarrow> nat \<Rightarrow> nat \<Rightarrow> string" where
  "show_general prec p q =
     (let x0 = dec_exponent p q;
          d0 = scaled_digits prec p q x0;
          x = (if d0 = 10 ^ prec then x0 + 1 else x0);
          ds = show_nat (if d0 = 10 ^ prec then 10 ^ (prec - 1) else d0)
      in if x < - 4 \<or> int prec \<le> x then
           with_point (take 1 ds) (strip_zeros (drop 1 ds)) @ show_exponent x
         else if 0 \<le> x then
           with_point (take (nat x + 1) ds) (strip_zeros (drop (nat x + 1) ds))
         else
           ''0.'' @ replicate (nat (- x) - 1) CHR ''0'' @ strip_zeros ds)"

definition show_double :: "double \<Rightarrow> string" where
  "show_double x =
     (if sign x then ''-'' else []) @
     (if is_nan x then ''nan''
      else if is_infinity x then ''inf''
      else if is_zero x then ''0''
      else if 1075 \<le> bexp x then show_general 6 (mant x * 2 ^ (bexp x - 1075)) 1
      else show_general 6 (mant x) (2 ^ (1075 - bexp x)))"

text \<open>The lines of a text: the pieces ended by a line feed, and what follows the last one.\<close>

fun split_lines :: "string \<Rightarrow> string \<Rightarrow> string list" where
  "split_lines acc [] = (if acc = [] then [] else [acc])"
| "split_lines acc (c # cs) =
     (if c = CHR 0x0A then acc # split_lines [] cs else split_lines (acc @ [c]) cs)"

definition lines_of :: "string \<Rightarrow> string list" where
  "lines_of s = split_lines [] s"

section \<open>The program\<close>

text \<open>
  Every function of \<^verbatim>\<open>outputmain.cpp\<close> takes the standard output written so far and
  returns its result with the output it leaves. Indexing a \<^verbatim>\<open>std::vector\<close> outside its
  bounds is undefined behaviour in C++; the model makes it a fault that ends the run.
\<close>

datatype fault = OutOfBounds

type_synonym 'a outcome = "fault + 'a \<times> stdout"

definition vector_at :: "'a list \<Rightarrow> nat \<Rightarrow> fault + 'a" where
  "vector_at v i = (if i < length v then Inr (v ! i) else Inl OutOfBounds)"

definition set_clear :: "'a set \<Rightarrow> 'a set" where
  "set_clear s = {}"

text \<open>
  \<^verbatim>\<open>double add(double val_a, double val_b)\<close>, lines 38-57: builds the vector \<open>t\<close>,
  prints \<open>t[1]\<close> and a line end, builds the set \<open>s\<close> and clears it, returns the sum.
\<close>

definition add :: "double \<Rightarrow> double \<Rightarrow> stdout \<Rightarrow> double outcome" where
  "add val_a val_b out =
     (let t = [1, 2, 3] :: 32 word list
      in case vector_at t 1 of
           Inl f \<Rightarrow> Inl f
         | Inr v \<Rightarrow>
             (let out1 = out @ show_int (sint v) @ endl;
                  s = {''a'', ''b'', ''c''};
                  s1 = set_clear s
              in Inr (dadd val_a val_b, out1)))"

text \<open>\<^verbatim>\<open>double sub(double val_a, double val_b)\<close>, lines 59-70.\<close>

definition sub :: "double \<Rightarrow> double \<Rightarrow> stdout \<Rightarrow> double outcome" where
  "sub val_a val_b out = Inr (dsub val_a val_b, out)"

text \<open>
  The expression \<^verbatim>\<open>add(sub(a, b), sub(b, a))\<close> of line 30. C++ leaves open which
  argument is evaluated first; \<open>sub\<close> writes nothing and cannot fault, so both orders
  give the same outcome.
\<close>

definition add_sub_sub :: "double \<Rightarrow> double \<Rightarrow> stdout \<Rightarrow> double outcome" where
  "add_sub_sub a b out =
     (case sub a b out of
        Inl f \<Rightarrow> Inl f
      | Inr (d1, out1) \<Rightarrow>
          (case sub b a out1 of
             Inl f \<Rightarrow> Inl f
           | Inr (d2, out2) \<Rightarrow> add d1 d2 out2))"

text \<open>
  \<^verbatim>\<open>int main(int argc, char **argv)\<close>, lines 8-36. The \<^verbatim>\<open>int b = 5\<close> is converted to
  \<^verbatim>\<open>double\<close> where it is passed to \<open>add\<close> and \<open>sub\<close>.
\<close>

definition main :: "32 word \<Rightarrow> string list \<Rightarrow> stdout \<Rightarrow> 32 word outcome" where
  "main argc argv out =
     (case add lit_1_1 lit_2_4 out of
        Inl f \<Rightarrow> Inl f
      | Inr (x, out1) \<Rightarrow>
          (let out2 = out1 @ show_double x @ endl;
               a = lit_3_2;
               b = 5 :: 32 word
           in case add a (double_of_int b) out2 of
                Inl f \<Rightarrow> Inl f
              | Inr (y, out3) \<Rightarrow>
                  (let out4 = out3 @ show_double y @ endl
                   in case add_sub_sub a (double_of_int b) out4 of
                        Inl f \<Rightarrow> Inl f
                      | Inr (z, out5) \<Rightarrow>
                          (let out6 = out5 @ show_double z @ endl
                           in Inr (0, out6)))))"

text \<open>What a call leaves on standard output, and what it returns (nothing after a fault).\<close>

definition stdout_of :: "'a outcome \<Rightarrow> stdout" where
  "stdout_of r = (case r of Inl f \<Rightarrow> [] | Inr (v, out) \<Rightarrow> out)"

definition result_of :: "'a outcome \<Rightarrow> 'a option" where
  "result_of r = (case r of Inl f \<Rightarrow> None | Inr (v, out) \<Rightarrow> Some v)"

subsection \<open>Values met in the run\<close>

text \<open>
  The doubles 3.5, 5 and 8.2 (the one nearest to it, \<^verbatim>\<open>0x4020666666666666\<close>), the
  difference \<open>5 - 3.2\<close> as the machine has it (\<^verbatim>\<open>0x3FFCCCCCCCCCCCCC\<close>, the double
  just below the one nearest to 1.8), and the text of a whole run.
\<close>

definition dbl_3_5 :: double where
  "dbl_3_5 = \<lparr>sign = False, expo = 1024, frac = 0xC000000000000\<rparr>"

definition dbl_5 :: double where
  "dbl_5 = \<lparr>sign = False, expo = 1025, frac = 0x4000000000000\<rparr>"

definition dbl_8_2 :: double where
  "dbl_8_2 = \<lparr>sign = False, expo = 1026, frac = 0x0666666666666\<rparr>"

definition dbl_diff :: double where
  "dbl_diff = \<lparr>sign = False, expo = 1023, frac = 0xCCCCCCCCCCCCC\<rparr>"

definition expected_output :: string where
  "expected_output =
     ''2'' @ endl @ ''3.5'' @ endl @ ''2'' @ endl @ ''8.2'' @ endl @ ''2'' @ endl @ ''0'' @ endl"

section \<open>Properties of the arithmetic\<close>

subsection \<open>Negation, commutation and cancellation\<close>

lemma expo_of_nat_neq_max: "e < 2047 \<Longrightarrow> (of_nat e :: 11 word) \<noteq> 2047"
proof
  assume lt: "e < 2047" and eq: "(of_nat e :: 11 word) = 2047"
  from eq have "unat (of_nat e :: 11 word) = unat (2047 :: 11 word)" by simp
  with lt show False by (simp add: unat_of_nat)
qed

lemma pack_not_nan: "\<not> is_nan (pack s m e)"
  by (simp add: pack_def is_nan_def infinity_def expo_of_nat_neq_max)

lemma dneg_pack: "dneg (pack s m e) = pack (\<not> s) m e"
  by (simp add: pack_def dneg_def infinity_def)

lemma round_to_double_not_nan: "\<not> is_nan (round_to_double s m e)"
  by (simp add: round_to_double_def Let_def pack_not_nan)

lemma dneg_round_to_double: "dneg (round_to_double s m e) = round_to_double (\<not> s) m e"
  by (simp add: round_to_double_def Let_def dneg_pack)

lemma dneg_dneg: "dneg (dneg x) = x"
  by (simp add: dneg_def)

lemma mant_dneg: "mant (dneg x) = mant x"
  by (simp add: mant_def dneg_def)

lemma bexp_dneg: "bexp (dneg x) = bexp x"
  by (simp add: bexp_def dneg_def)

lemma sign_dneg: "sign (dneg x) = (\<not> sign x)"
  by (simp add: dneg_def)

lemma signed_mant_dneg: "signed_mant (dneg x) = - signed_mant x"
  by (simp add: signed_mant_def mant_dneg sign_dneg)

lemma is_finite_dneg: "is_finite (dneg x) = is_finite x"
  by (simp add: is_finite_def dneg_def)

lemma is_nan_dneg: "is_nan (dneg x) = is_nan x"
  by (simp add: is_nan_def dneg_def)

lemma finite_not_nan: "is_finite x \<Longrightarrow> \<not> is_nan x"
  by (simp add: is_finite_def is_nan_def)

lemma finite_not_infinity: "is_finite x \<Longrightarrow> \<not> is_infinity x"
  by (simp add: is_finite_def is_infinity_def)

lemma dadd_finite: "is_finite x \<Longrightarrow> is_finite y \<Longrightarrow> dadd x y = add_finite x y"
  by (simp add: dadd_def finite_not_nan finite_not_infinity)

lemma dsub_finite: "is_finite x \<Longrightarrow> is_finite y \<Longrightarrow> dsub x y = add_finite x (dneg y)"
  by (simp add: dsub_def dadd_finite is_finite_dneg)

lemma exact_sum_commute: "exact_sum x y = exact_sum y x"
  by (simp add: exact_sum_def Let_def min.commute add.commute)

lemma exact_sum_dneg: "exact_sum (dneg x) (dneg y) = - exact_sum x y"
  by (simp add: exact_sum_def Let_def signed_mant_dneg bexp_dneg)

lemma exact_sum_self: "exact_sum x (dneg x) = 0"
  by (simp add: exact_sum_def Let_def signed_mant_dneg bexp_dneg)

lemma add_finite_commute: "add_finite x y = add_finite y x"
  by (simp add: add_finite_def Let_def exact_sum_commute [of x y] min.commute conj_commute)

lemma add_finite_not_nan: "\<not> is_nan (add_finite x y)"
  by (simp add: add_finite_def Let_def round_to_double_not_nan) (simp add: is_nan_def signed_zero_def)

lemma is_zero_signed_zero: "is_zero (signed_zero s)"
  by (simp add: is_zero_def signed_zero_def)

text \<open>Swapping the operands of a difference negates it, up to the sign of a zero.\<close>

lemma add_finite_swap:
  "add_finite y (dneg x) =
     (if exact_sum x (dneg y) = 0 then signed_zero (sign y \<and> \<not> sign x)
      else dneg (add_finite x (dneg y)))"
proof -
  have n: "exact_sum y (dneg x) = - exact_sum x (dneg y)"
    using exact_sum_dneg [of x "dneg y"] by (simp add: dneg_dneg exact_sum_commute [of y])
  show ?thesis
  proof (cases "exact_sum x (dneg y) = 0")
    case True
    with n show ?thesis by (simp add: add_finite_def Let_def sign_dneg)
  next
    case False
    then have "(- exact_sum x (dneg y) < 0) = (\<not> exact_sum x (dneg y) < 0)" by arith
    with False n show ?thesis
      by (simp add: add_finite_def Let_def dneg_round_to_double bexp_dneg min.commute)
  qed
qed

lemma deq_refl: "\<not> is_nan x \<Longrightarrow> deq x x"
  by (simp add: deq_def)

lemma dsub_antisym:
  assumes "is_finite x" "is_finite y"
  shows "deq (dsub x y) (dneg (dsub y x))"
proof (cases "exact_sum x (dneg y) = 0")
  case True
  then have "dsub x y = signed_zero (sign x \<and> \<not> sign y)"
    using assms by (simp add: dsub_finite add_finite_def Let_def sign_dneg)
  moreover from True have "dneg (dsub y x) = signed_zero (\<not> (sign y \<and> \<not> sign x))"
    using assms by (simp add: dsub_finite add_finite_swap) (simp add: dneg_def signed_zero_def)
  ultimately show ?thesis
    by (simp add: deq_def is_zero_signed_zero) (simp add: is_nan_def signed_zero_def)
next
  case False
  then have "dneg (dsub y x) = dsub x y"
    using assms by (simp add: dsub_finite add_finite_swap dneg_dneg)
  then show ?thesis
    using assms by (simp add: deq_refl dsub_finite add_finite_not_nan)
qed

lemma mant_signed_zero: "mant (signed_zero s) = 0"
  by (simp add: mant_def signed_zero_def)

lemma exact_sum_zeros: "exact_sum (signed_zero s) (signed_zero t) = 0"
  by (simp add: exact_sum_def Let_def signed_mant_def mant_signed_zero)

lemma is_finite_signed_zero: "is_finite (signed_zero s)"
  by (simp add: is_finite_def signed_zero_def)

lemma cancel_sum:
  assumes "is_finite a" "is_finite b" "is_finite (dsub a b)"
  shows "dadd (dsub a b) (dsub b a) = signed_zero False"
proof (cases "exact_sum a (dneg b) = 0")
  case True
  then have "dsub a b = signed_zero (sign a \<and> \<not> sign b)"
    using assms by (simp add: dsub_finite add_finite_def Let_def sign_dneg)
  moreover from True have "dsub b a = signed_zero (sign b \<and> \<not> sign a)"
    using assms by (simp add: dsub_finite add_finite_swap)
  ultimately show ?thesis
    by (auto simp add: dadd_finite is_finite_signed_zero add_finite_def exact_sum_zeros)
       (simp_all add: signed_zero_def)
next
  case False
  then have "dsub b a = dneg (dsub a b)"
    using assms by (simp add: dsub_finite add_finite_swap)
  then show ?thesis
    using assms(3)
    by (simp add: dadd_finite is_finite_dneg add_finite_def exact_sum_self sign_dneg)
qed

subsection \<open>Rounding is exact where it can be, and off by at most half a unit in the last place\<close>

lemma bit_length_bounds: "0 < m \<Longrightarrow> 2 ^ (bit_length m - 1) \<le> m \<and> m < 2 ^ bit_length m"
proof (induction m rule: bit_length.induct)
  case (1 n)
  show ?case
  proof (cases "n div 2 = 0")
    case True
    with "1.prems" have "n = 1" by arith
    then show ?thesis by (simp add: bit_length.simps)
  next
    case False
    then have pos: "0 < n div 2" by simp
    with "1.IH" "1.prems" have ih: "2 ^ (bit_length (n div 2) - 1) \<le> n div 2"
      "n div 2 < 2 ^ bit_length (n div 2)" by simp_all
    have bl: "bit_length n = Suc (bit_length (n div 2))"
      using "1.prems" by (subst bit_length.simps) simp
    have "0 < bit_length (n div 2)"
      using pos by (subst bit_length.simps) simp
    then obtain j where j: "bit_length (n div 2) = Suc j" by (cases "bit_length (n div 2)") simp_all
    from ih j have "2 ^ j \<le> n div 2" "n div 2 < 2 ^ Suc j" by simp_all
    then have "2 * 2 ^ j \<le> n" "n < 2 * 2 ^ Suc j" by arith+
    with bl j show ?thesis by simp
  qed
qed

lemma unat_frac_of_nat: "m < 2 ^ 52 \<Longrightarrow> unat (of_nat m :: 52 word) = m"
  by (simp add: unat_of_nat)

lemma unat_expo_of_nat: "e < 2048 \<Longrightarrow> unat (of_nat e :: 11 word) = e"
  by (simp add: unat_of_nat)

lemma expo_of_nat_neq_zero: "0 < e \<Longrightarrow> e < 2048 \<Longrightarrow> (of_nat e :: 11 word) \<noteq> 0"
proof
  assume "0 < e" "e < 2048" "(of_nat e :: 11 word) = 0"
  then have "unat (of_nat e :: 11 word) = 0" by simp
  with \<open>0 < e\<close> \<open>e < 2048\<close> show False by (simp add: unat_of_nat)
qed

lemma pack_subnormal:
  "m < 2 ^ 52 \<Longrightarrow> mant (pack s m e) = m \<and> bexp (pack s m e) = 1 \<and> sign (pack s m e) = s"
  by (simp add: pack_def mant_def bexp_def unat_frac_of_nat)

lemma pack_normal:
  assumes "2 ^ 52 \<le> m" "m < 2 ^ 53" "0 < e" "e < 2047"
  shows "mant (pack s m e) = m \<and> bexp (pack s m e) = e \<and> sign (pack s m e) = s"
proof -
  from assms have "m - 2 ^ 52 < 2 ^ 52" by simp
  then have "unat (of_nat (m - 2 ^ 52) :: 52 word) = m - 2 ^ 52" by (rule unat_frac_of_nat)
  moreover from assms have "(of_nat e :: 11 word) \<noteq> 0" by (simp add: expo_of_nat_neq_zero)
  moreover from assms have "unat (of_nat e :: 11 word) = e" by (simp add: unat_expo_of_nat)
  ultimately show ?thesis using assms by (simp add: pack_def mant_def bexp_def)
qed

lemma pack_overflow: "2 ^ 52 \<le> m \<Longrightarrow> 2047 \<le> e \<Longrightarrow> pack s m e = infinity s"
  by (simp add: pack_def)

lemma round_even_error:
  "2 * (round_even m k * 2 ^ k - m) \<le> 2 ^ k \<and> 2 * (m - round_even m k * 2 ^ k) \<le> 2 ^ k"
proof -
  define q r where "q = m div 2 ^ k" and "r = m mod 2 ^ k"
  have m: "m = q * 2 ^ k + r" unfolding q_def r_def by (rule div_mult_mod_eq [symmetric])
  have r: "r < 2 ^ k" by (simp add: r_def)
  show ?thesis
  proof (cases "2 ^ k < 2 * r \<or> (2 * r = 2 ^ k \<and> odd q)")
    case True
    then have "round_even m k = q + 1"
      by (simp add: round_even_def Let_def q_def r_def)
    moreover have "(q + 1) * 2 ^ k - m = 2 ^ k - r" using m by (simp add: algebra_simps)
    moreover have "m - (q + 1) * 2 ^ k = 0" using m r by (simp add: algebra_simps)
    ultimately show ?thesis using True r by auto
  next
    case False
    then have "round_even m k = q"
      by (simp add: round_even_def Let_def q_def r_def)
    moreover have "q * 2 ^ k - m = 0" "m - q * 2 ^ k = r" using m by simp_all
    ultimately show ?thesis using False by auto
  qed
qed

lemma round_even_range:
  assumes "2 ^ (52 + k) \<le> m" "m < 2 ^ (53 + k)"
  shows "2 ^ 52 \<le> round_even m k \<and> round_even m k \<le> 2 ^ 53"
proof -
  define q where "q = m div 2 ^ k"
  have "2 ^ 52 * 2 ^ k \<le> m" using assms(1) by (simp add: power_add)
  then have lo: "2 ^ 52 \<le> q" unfolding q_def by (simp add: less_eq_div_iff_mult_less_eq)
  have "m < 2 ^ 53 * 2 ^ k" using assms(2) by (simp add: power_add)
  then have hi: "q < 2 ^ 53" unfolding q_def by (simp add: less_mult_imp_div_less)
  have "round_even m k = q \<or> round_even m k = q + 1"
    by (simp add: round_even_def Let_def q_def)
  with lo hi show ?thesis by auto
qed

lemma infinity_not_finite: "\<not> is_finite (infinity s)"
  by (simp add: is_finite_def infinity_def)

lemma nat_diff_abs:
  fixes p m c :: nat
  shows "2 * (p - m) \<le> c \<Longrightarrow> 2 * (m - p) \<le> c \<Longrightarrow> 2 * \<bar>int p - int m\<bar> \<le> int c"
  by arith

lemma round_to_double_exact:
  assumes m: "0 < m" and e: "0 < e" and l: "bit_length m \<le> 53"
    and fin: "is_finite (round_to_double s m e)"
  shows "sign (round_to_double s m e) = s \<and> magnitude (round_to_double s m e) = m * 2 ^ (e - 1)"
proof -
  define d where "d = min (53 - bit_length m) (e - 1)"
  have r: "round_to_double s m e = pack s (m * 2 ^ d) (e - d)"
    using l by (simp add: round_to_double_def Let_def d_def)
  have d_le: "d \<le> e - 1" "d \<le> 53 - bit_length m" by (simp_all add: d_def)
  from bit_length_bounds [OF m] have lo: "2 ^ (bit_length m - 1) \<le> m" and hi: "m < 2 ^ bit_length m"
    by simp_all
  have "m * 2 ^ d < 2 ^ bit_length m * 2 ^ d" using hi by simp
  also have "\<dots> = 2 ^ (bit_length m + d)" by (simp add: power_add)
  also have "\<dots> \<le> 2 ^ 53" using d_le l by (intro power_increasing) simp_all
  finally have top: "m * 2 ^ d < 2 ^ 53" .
  show ?thesis
  proof (cases "m * 2 ^ d < 2 ^ 52")
    case True
    have "d = e - 1"
    proof (rule ccontr)
      assume "d \<noteq> e - 1"
      then have "d = 53 - bit_length m" by (simp add: d_def min_def split: if_splits)
      moreover have "0 < bit_length m" using m by (subst bit_length.simps) simp
      ultimately have "bit_length m - 1 + d = 52" using l by simp
      then have "(2::nat) ^ 52 = 2 ^ (bit_length m - 1) * 2 ^ d" by (simp add: power_add [symmetric])
      also have "\<dots> \<le> m * 2 ^ d" using lo by simp
      finally show False using True by simp
    qed
    with True r show ?thesis by (simp add: pack_subnormal magnitude_def)
  next
    case False
    then have big: "2 ^ 52 \<le> m * 2 ^ d" by simp
    have pos: "0 < e - d" using d_le e by simp
    have "e - d < 2047"
    proof (rule ccontr)
      assume "\<not> e - d < 2047"
      with big r have "round_to_double s m e = infinity s" by (simp add: pack_overflow)
      with fin show False by (simp add: infinity_not_finite)
    qed
    with big top pos r have
      "mant (round_to_double s m e) = m * 2 ^ d" "bexp (round_to_double s m e) = e - d"
      "sign (round_to_double s m e) = s"
      by (simp_all add: pack_normal)
    moreover have "d + (e - d - 1) = e - 1" using d_le e by simp
    then have "(2::nat) ^ d * 2 ^ (e - d - 1) = 2 ^ (e - 1)" by (simp add: power_add [symmetric])
    ultimately show ?thesis by (simp add: magnitude_def mult.assoc)
  qed
qed

lemma round_to_double_rounded:
  assumes m: "0 < m" and e: "0 < e" and l: "53 < bit_length m"
    and fin: "is_finite (round_to_double s m e)"
  shows "sign (round_to_double s m e) = s \<and>
         2 * \<bar>int (magnitude (round_to_double s m e)) - int (m * 2 ^ (e - 1))\<bar>
           \<le> 2 ^ (bexp (round_to_double s m e) - 1)"
proof -
  define k where "k = bit_length m - 53"
  define q where "q = round_even m k"
  have bl: "bit_length m = 53 + k" using l by (simp add: k_def)
  from bit_length_bounds [OF m] bl have "2 ^ (52 + k) \<le> m" "m < 2 ^ (53 + k)" by simp_all
  from round_even_range [OF this] have q_range: "2 ^ 52 \<le> q" "q \<le> 2 ^ 53"
    unfolding q_def by blast+
  have "2 * \<bar>int (q * 2 ^ k) - int m\<bar> \<le> int (2 ^ k)"
    using round_even_error [of m k] unfolding q_def [symmetric] by (intro nat_diff_abs) simp_all
  then have err: "2 * \<bar>int (q * 2 ^ k) - int m\<bar> \<le> 2 ^ k" by simp
  have r: "round_to_double s m e =
             (if q = 2 ^ 53 then pack s (2 ^ 52) (e + k + 1) else pack s q (e + k))"
    using l by (simp add: round_to_double_def Let_def k_def q_def)
  have scale: "(2::nat) ^ k * 2 ^ (e - 1) = 2 ^ (e + k - 1)"
    using e by (simp add: power_add [symmetric])
  have mag: "sign (round_to_double s m e) = s
             \<and> magnitude (round_to_double s m e) = q * 2 ^ (e + k - 1)
             \<and> e + k \<le> bexp (round_to_double s m e)"
  proof (cases "q = 2 ^ 53")
    case True
    have "e + k + 1 < 2047"
    proof (rule ccontr)
      assume "\<not> e + k + 1 < 2047"
      with True r have "round_to_double s m e = infinity s" by (simp add: pack_overflow)
      with fin show False by (simp add: infinity_not_finite)
    qed
    then have "mant (pack s (2 ^ 52) (e + k + 1)) = 2 ^ 52 \<and> bexp (pack s (2 ^ 52) (e + k + 1)) = e + k + 1
               \<and> sign (pack s (2 ^ 52) (e + k + 1)) = s"
      by (intro pack_normal) simp_all
    moreover have "e + k = Suc (e + k - 1)" using e by simp
    then have "(2::nat) ^ (e + k) = 2 * 2 ^ (e + k - 1)" by (metis power_Suc)
    then have "(2::nat) ^ 52 * 2 ^ (e + k) = 2 ^ 53 * 2 ^ (e + k - 1)" by simp
    ultimately show ?thesis using True r by (simp add: magnitude_def)
  next
    case False
    with q_range have lt: "q < 2 ^ 53" by simp
    have "e + k < 2047"
    proof (rule ccontr)
      assume "\<not> e + k < 2047"
      with False q_range r have "round_to_double s m e = infinity s" by (simp add: pack_overflow)
      with fin show False by (simp add: infinity_not_finite)
    qed
    with q_range lt e have "mant (pack s q (e + k)) = q \<and> bexp (pack s q (e + k)) = e + k
               \<and> sign (pack s q (e + k)) = s"
      by (intro pack_normal) simp_all
    with False r show ?thesis by (simp add: magnitude_def)
  qed
  have "q * 2 ^ (e + k - 1) = (q * 2 ^ k) * 2 ^ (e - 1)"
    by (simp only: scale [symmetric] mult.assoc)
  then have "int (q * 2 ^ (e + k - 1)) - int (m * 2 ^ (e - 1)) = (int (q * 2 ^ k) - int m) * 2 ^ (e - 1)"
    by (simp only: of_nat_mult of_nat_power left_diff_distrib) simp
  then have "2 * \<bar>int (q * 2 ^ (e + k - 1)) - int (m * 2 ^ (e - 1))\<bar>
               = (2 * \<bar>int (q * 2 ^ k) - int m\<bar>) * 2 ^ (e - 1)"
    by (simp add: abs_mult)
  also have "\<dots> \<le> 2 ^ k * 2 ^ (e - 1)"
    using err by (intro mult_right_mono) simp_all
  also have "\<dots> = 2 ^ (e + k - 1)" using e by (simp add: power_add [symmetric])
  also have "\<dots> \<le> 2 ^ (bexp (round_to_double s m e) - 1)"
  proof (rule power_increasing)
    from mag show "e + k - 1 \<le> bexp (round_to_double s m e) - 1" by arith
  qed simp
  finally show ?thesis using mag by simp
qed

lemma bexp_pos: "0 < bexp x"
  by (simp add: bexp_def unat_gt_0)

lemma units_signed_mant: "units x = signed_mant x * 2 ^ (bexp x - 1)"
  by (simp add: units_def magnitude_def signed_mant_def)

lemma exact_sum_units: "units x + units y = exact_sum x y * 2 ^ (min (bexp x) (bexp y) - 1)"
proof -
  define e where "e = min (bexp x) (bexp y)"
  have e: "0 < e" "e \<le> bexp x" "e \<le> bexp y" using bexp_pos [of x] bexp_pos [of y] by (simp_all add: e_def)
  have "bexp x - 1 = (bexp x - e) + (e - 1)" "bexp y - 1 = (bexp y - e) + (e - 1)" using e by simp_all
  then have "(2::int) ^ (bexp x - 1) = 2 ^ (bexp x - e) * 2 ^ (e - 1)"
    "(2::int) ^ (bexp y - 1) = 2 ^ (bexp y - e) * 2 ^ (e - 1)"
    by (simp_all only: power_add)
  then show ?thesis
    unfolding e_def [symmetric] by (simp add: units_signed_mant exact_sum_def Let_def e_def [symmetric] algebra_simps)
qed

lemma units_signed_zero: "units (signed_zero s) = 0"
  by (simp add: units_def magnitude_def mant_signed_zero)

lemma add_finite_units:
  assumes fin: "is_finite (add_finite x y)"
  shows "2 * \<bar>units (add_finite x y) - (units x + units y)\<bar> \<le> 2 ^ (bexp (add_finite x y) - 1)
         \<and> (bit_length (nat \<bar>exact_sum x y\<bar>) \<le> 53 \<longrightarrow> units (add_finite x y) = units x + units y)"
proof (cases "exact_sum x y = 0")
  case True
  then show ?thesis by (simp add: add_finite_def exact_sum_units units_signed_zero)
next
  case False
  define n m e where "n = exact_sum x y" and "m = nat \<bar>n\<bar>" and "e = min (bexp x) (bexp y)"
  define r where "r = round_to_double (n < 0) m e"
  have r: "add_finite x y = r" using False by (simp add: add_finite_def Let_def r_def n_def m_def e_def)
  have m: "0 < m" using False by (simp add: m_def n_def)
  have e: "0 < e" using bexp_pos [of x] bexp_pos [of y] by (simp add: e_def)
  have fin_r: "is_finite (round_to_double (n < 0) m e)" using fin r by (simp add: r_def)
  have exact: "units x + units y = (if n < 0 then - int (m * 2 ^ (e - 1)) else int (m * 2 ^ (e - 1)))"
    by (simp add: exact_sum_units n_def [symmetric] e_def [symmetric] m_def)
  show ?thesis
  proof (cases "bit_length m \<le> 53")
    case True
    from round_to_double_exact [OF m e True fin_r]
    have "sign r = (n < 0)" "magnitude r = m * 2 ^ (e - 1)" by (simp_all add: r_def)
    then have "units r = (if n < 0 then - int (m * 2 ^ (e - 1)) else int (m * 2 ^ (e - 1)))"
      by (simp add: units_def [of r])
    then have "units r = units x + units y" by (simp only: exact)
    then show ?thesis by (simp add: r)
  next
    case False
    then have "53 < bit_length m" by simp
    from round_to_double_rounded [OF m e this fin_r]
    have s: "sign r = (n < 0)" and
      b: "2 * \<bar>int (magnitude r) - int (m * 2 ^ (e - 1))\<bar> \<le> 2 ^ (bexp r - 1)"
      by (simp_all add: r_def)
    have "units r = (if n < 0 then - int (magnitude r) else int (magnitude r))"
      by (simp add: units_def [of r] s)
    then have "\<bar>units r - (units x + units y)\<bar> = \<bar>int (magnitude r) - int (m * 2 ^ (e - 1))\<bar>"
      unfolding exact by (cases "n < 0") simp_all
    with b False show ?thesis by (simp add: r m_def n_def)
  qed
qed

lemma dadd_correctly_rounded:
  assumes "is_finite x" "is_finite y" "is_finite (dadd x y)"
  shows "2 * \<bar>units (dadd x y) - (units x + units y)\<bar> \<le> 2 ^ (bexp (dadd x y) - 1)"
  using assms add_finite_units [of x y] by (simp add: dadd_finite)

lemma dadd_exact:
  assumes "is_finite x" "is_finite y" "is_finite (dadd x y)"
    and "bit_length (nat \<bar>exact_sum x y\<bar>) \<le> 53"
  shows "units (dadd x y) = units x + units y"
  using assms add_finite_units [of x y] by (simp add: dadd_finite)

lemma units_dneg: "units (dneg x) = - units x"
  by (simp add: units_def magnitude_def mant_dneg bexp_dneg sign_dneg)

lemma dsub_correctly_rounded:
  assumes "is_finite x" "is_finite y" "is_finite (dsub x y)"
  shows "2 * \<bar>units (dsub x y) - (units x - units y)\<bar> \<le> 2 ^ (bexp (dsub x y) - 1)"
  using assms dadd_correctly_rounded [of x "dneg y"]
  by (simp add: dsub_def is_finite_dneg units_dneg)

subsection \<open>The literals and the values of the run\<close>

lemma literals_nearest:
  "nearest_to lit_1_1 11 10" "nearest_to lit_2_4 24 10" "nearest_to lit_3_2 32 10"
  by (simp_all add: nearest_to_def is_finite_def mant_def bexp_def lit_1_1_def lit_2_4_def
      lit_3_2_def)

lemma values_nearest:
  "nearest_to dbl_3_5 35 10" "nearest_to dbl_5 5 1" "nearest_to dbl_8_2 82 10"
  by (simp_all add: nearest_to_def is_finite_def mant_def bexp_def dbl_3_5_def dbl_5_def
      dbl_8_2_def)

section \<open>Running the program\<close>

lemmas double_eval =
  round_to_double_def bit_length.simps round_even_def pack_def Let_def exact_sum_def
  add_finite_def dadd_def dsub_def dneg_def is_nan_def is_infinity_def is_zero_def
  mant_def bexp_def signed_mant_def signed_zero_def infinity_def quiet_nan_def
  double_of_int_def

lemmas show_eval =
  show_double_def show_general_def dec_exponent_def scaled_digits_def div_even_def
  strip_zeros_def with_point_def show_exponent_def show_nat.simps dec_length.simps
  scale_up.simps digit_char_def is_nan_def is_infinity_def is_zero_def mant_def bexp_def
  Let_def

lemma sum_1_1_2_4: "dadd lit_1_1 lit_2_4 = dbl_3_5"
  by (simp add: double_eval lit_1_1_def lit_2_4_def dbl_3_5_def)

lemma five: "double_of_int 5 = dbl_5"
  by (simp add: double_eval dbl_5_def)

lemma sum_3_2_5: "dadd lit_3_2 dbl_5 = dbl_8_2"
  by (simp add: double_eval lit_3_2_def dbl_5_def dbl_8_2_def)

lemma diff_3_2_5: "dsub lit_3_2 dbl_5 = dneg dbl_diff"
  by (simp add: double_eval lit_3_2_def dbl_5_def dbl_diff_def)

lemma diff_5_3_2: "dsub dbl_5 lit_3_2 = dbl_diff"
  by (simp add: double_eval lit_3_2_def dbl_5_def dbl_diff_def)

lemma sum_diffs: "dadd (dneg dbl_diff) dbl_diff = signed_zero False"
  by (simp add: double_eval dbl_diff_def)

lemma show_3_5: "show_double dbl_3_5 = ''3.5''"
  by (simp add: show_eval dbl_3_5_def)

lemma show_8_2: "show_double dbl_8_2 = ''8.2''"
  by (simp add: show_eval dbl_8_2_def)

lemma show_zero: "show_double (signed_zero False) = ''0''"
  by (simp add: show_eval signed_zero_def)

lemma add_run: "add x y out = Inr (dadd x y, out @ ''2'' @ endl)"
  by (simp add: add_def vector_at_def show_int_def show_nat.simps digit_char_def)

lemma add_sub_sub_run:
  "add_sub_sub a b out = Inr (dadd (dsub a b) (dsub b a), out @ ''2'' @ endl)"
  by (simp add: add_sub_sub_def sub_def add_run)

lemma main_run: "main argc argv out = Inr (0, out @ expected_output)"
  by (simp add: main_def add_run add_sub_sub_run five sum_1_1_2_4 sum_3_2_5 diff_3_2_5
      diff_5_3_2 sum_diffs show_3_5 show_8_2 show_zero expected_output_def)

lemma lines_expected:
  "lines_of expected_output = [''2'', ''3.5'', ''2'', ''8.2'', ''2'', ''0'']"
  by (simp add: lines_of_def expected_output_def endl_def)

lemma stdout_of_Inr: "stdout_of (Inr (v, out)) = out"
  by (simp add: stdout_of_def)

lemma result_of_Inr: "result_of (Inr (v, out)) = Some v"
  by (simp add: result_of_def)

lemma dbl_max_finite: "is_finite dbl_max" "is_finite (dneg dbl_max)"
  by (simp_all add: is_finite_def dbl_max_def dneg_def)

lemma dbl_max_overflow:
  "dsub dbl_max (dneg dbl_max) = infinity False" "dsub (dneg dbl_max) dbl_max = infinity True"
  by (simp_all add: double_eval dbl_max_def)

lemma infinities_sum: "dadd (infinity False) (infinity True) = quiet_nan"
  by (simp add: dadd_def is_nan_def is_infinity_def infinity_def)

lemma lit_finite: "is_finite lit_1_1" "is_finite lit_2_4" "is_finite lit_3_2" "is_finite dbl_5"
  "is_finite (dneg dbl_diff)"
  by (simp_all add: is_finite_def lit_1_1_def lit_2_4_def lit_3_2_def dbl_5_def dbl_diff_def dneg_def)

section \<open>The claims\<close>

text \<open>
  Claim C1 as stated fails: the output of a run does not have four lines.
\<close>

theorem main_four_lines_counterexample:
  "length (lines_of (stdout_of (main 1 [''outputmain''] []))) \<noteq> 4"
  by (simp add: main_run stdout_of_Inr lines_expected)

text \<open>
  Claim C1, amended: a full run prints exactly six lines, in this order: \<open>2\<close>, \<open>3.5\<close>,
  \<open>2\<close>, \<open>8.2\<close>, \<open>2\<close>, \<open>0\<close>. The three numeric lines are the results of
  \<open>add(1.1, 2.4)\<close>, \<open>add(3.2, 5)\<close> and \<open>add(sub(a, b), sub(b, a))\<close>, each printed right
  after it is computed, and each comes after the line \<open>2\<close> that the call of \<open>add\<close>
  computing it prints.
\<close>

theorem main_prints_six_lines:
  "lines_of (stdout_of (main argc argv [])) = [''2'', ''3.5'', ''2'', ''8.2'', ''2'', ''0'']
   \<and> show_double (dadd lit_1_1 lit_2_4) = ''3.5''
   \<and> show_double (dadd lit_3_2 (double_of_int 5)) = ''8.2''
   \<and> show_double (dadd (dsub lit_3_2 (double_of_int 5)) (dsub (double_of_int 5) lit_3_2)) = ''0''"
  by (simp add: main_run stdout_of_Inr lines_expected five sum_1_1_2_4 sum_3_2_5 diff_3_2_5
      diff_5_3_2 sum_diffs show_3_5 show_8_2 show_zero)

text \<open>
  Claim C2 as stated fails: for the largest finite double and its negation both
  differences overflow to infinities of opposite signs, their sum is a NaN, and a NaN
  equals nothing.
\<close>

theorem cancellation_counterexample:
  "is_finite dbl_max \<and> is_finite (dneg dbl_max)
   \<and> result_of (add_sub_sub dbl_max (dneg dbl_max) []) =
       Some (dadd (infinity False) (infinity True))
   \<and> is_nan (dadd (infinity False) (infinity True))
   \<and> \<not> deq (dadd (infinity False) (infinity True)) (signed_zero False)"
  by (simp add: dbl_max_finite add_sub_sub_run result_of_Inr dbl_max_overflow infinities_sum)
     (simp add: deq_def is_nan_def quiet_nan_def)

text \<open>
  Claim C2, amended: for all finite doubles \<open>a\<close> and \<open>b\<close> whose difference \<open>a - b\<close> does
  not overflow (it is finite), \<open>add(sub(a, b), sub(b, a))\<close> returns a value equal to 0.
\<close>

theorem cancellation_without_overflow:
  assumes "is_finite a" and "is_finite b" and "is_finite (dsub a b)"
  shows "result_of (add_sub_sub a b out) = Some (dadd (dsub a b) (dsub b a))
         \<and> deq (dadd (dsub a b) (dsub b a)) (signed_zero False)"
proof -
  have "deq (signed_zero False) (signed_zero False)"
    by (simp add: deq_def is_nan_def signed_zero_def)
  with assms show ?thesis
    by (simp add: add_sub_sub_run result_of_Inr cancel_sum)
qed

text \<open>
  The amended claim C2 at the operands of the run, \<open>a = 3.2\<close> and \<open>b = 5\<close>.
\<close>

theorem cancellation_without_overflow_witness:
  "is_finite lit_3_2 \<and> is_finite (double_of_int 5)
   \<and> is_finite (dsub lit_3_2 (double_of_int 5))
   \<and> result_of (add_sub_sub lit_3_2 (double_of_int 5) []) =
       Some (dadd (dsub lit_3_2 (double_of_int 5)) (dsub (double_of_int 5) lit_3_2))
   \<and> deq (dadd (dsub lit_3_2 (double_of_int 5)) (dsub (double_of_int 5) lit_3_2))
       (signed_zero False)"
  using cancellation_without_overflow [of lit_3_2 "double_of_int 5" "[]"]
  by (simp add: five lit_finite diff_3_2_5)

text \<open>
  Claim C3: for all doubles \<open>x\<close> and \<open>y\<close> (the finite ones among them), \<open>add\<close> returns
  the floating-point sum \<open>x + y\<close>, whatever the vector and the set inside it do.
\<close>

theorem add_returns_sum: "result_of (add x y out) = Some (dadd x y)"
  by (simp add: add_run result_of_Inr)

text \<open>
  Claim C4: for all doubles \<open>a\<close> and \<open>b\<close> (the finite ones among them), \<open>sub\<close> returns
  the floating-point difference \<open>a - b\<close>, leaves standard output as it was, and does not
  fault.
\<close>

theorem sub_returns_difference:
  "result_of (sub a b out) = Some (dsub a b)
   \<and> stdout_of (sub a b out) = out
   \<and> sub a b out \<noteq> Inl f"
  by (simp add: sub_def result_of_Inr stdout_of_Inr)

text \<open>
  Claim C5: for all finite doubles \<open>x\<close> and \<open>y\<close>, \<open>add(x, y) == add(y, x)\<close> and
  \<open>sub(x, y) == -sub(y, x)\<close>, with the comparison \<open>==\<close> of doubles.
\<close>

theorem add_commutes_sub_antisymmetric:
  assumes "is_finite x" and "is_finite y"
  shows "result_of (add x y out) = Some (dadd x y)
         \<and> result_of (add y x out) = Some (dadd y x)
         \<and> deq (dadd x y) (dadd y x)
         \<and> result_of (sub x y out) = Some (dsub x y)
         \<and> result_of (sub y x out) = Some (dsub y x)
         \<and> deq (dsub x y) (dneg (dsub y x))"
  using assms
  by (simp add: add_run sub_def result_of_Inr dsub_antisym dadd_finite
      add_finite_commute [of x y] deq_refl add_finite_not_nan)

text \<open>
  Claim C5 at \<open>x = 1.1\<close> and \<open>y = 2.4\<close>.
\<close>

theorem add_commutes_sub_antisymmetric_witness:
  "is_finite lit_1_1 \<and> is_finite lit_2_4
   \<and> result_of (add lit_1_1 lit_2_4 []) = Some (dadd lit_1_1 lit_2_4)
   \<and> result_of (add lit_2_4 lit_1_1 []) = Some (dadd lit_2_4 lit_1_1)
   \<and> deq (dadd lit_1_1 lit_2_4) (dadd lit_2_4 lit_1_1)
   \<and> result_of (sub lit_1_1 lit_2_4 []) = Some (dsub lit_1_1 lit_2_4)
   \<and> result_of (sub lit_2_4 lit_1_1 []) = Some (dsub lit_2_4 lit_1_1)
   \<and> deq (dsub lit_1_1 lit_2_4) (dneg (dsub lit_2_4 lit_1_1))"
  using add_commutes_sub_antisymmetric [of lit_1_1 lit_2_4 "[]"]
  by (simp add: lit_finite)

text \<open>
  Claim C6: every run returns the status 0, whatever the arguments and whatever was on
  standard output before.
\<close>

theorem main_returns_zero: "result_of (main argc argv out) = Some 0"
  by (simp add: main_run result_of_Inr)

text \<open>
  Claim C7: two runs with any argument counts and vectors leave the same output and
  return the same status.
\<close>

theorem main_ignores_arguments: "main argc argv out = main argc' argv' out"
  by (simp add: main_run)

text \<open>
  Claim C8 as stated fails: a call of \<open>add\<close> on an empty standard output leaves it
  not empty.
\<close>

theorem add_prints_counterexample: "stdout_of (add lit_1_1 lit_2_4 []) \<noteq> []"
  by (simp add: add_run stdout_of_Inr)

text \<open>
  Claim C8, amended: the one side effect of \<open>add\<close> is that it appends the line \<open>2\<close> to
  standard output, for all inputs; what was written before stays.
\<close>

theorem add_only_prints_two: "stdout_of (add x y out) = out @ ''2'' @ endl"
  by (simp add: add_run stdout_of_Inr)

text \<open>
  Claim C9: every call of \<open>add\<close> prints exactly one line, \<open>2\<close>, before it returns; a
  run calls \<open>add\<close> three times, so the line \<open>2\<close> is printed three times, once before
  each numeric result.
\<close>

theorem add_prints_two_each_call:
  "add x y out = Inr (dadd x y, out @ ''2'' @ endl)
   \<and> lines_of (stdout_of (add x y [])) = [''2'']
   \<and> filter (\<lambda>l. l = ''2'') (lines_of (stdout_of (main argc argv []))) = [''2'', ''2'', ''2'']
   \<and> (\<exists>r1 r2 r3. lines_of (stdout_of (main argc argv [])) = [''2'', r1, ''2'', r2, ''2'', r3])"
  by (simp add: add_run main_run stdout_of_Inr lines_expected) (simp add: lines_of_def endl_def)

text \<open>
  Claim C10: the subscript \<open>t[1]\<close> in \<open>add\<close> is within the bounds of the three-element
  vector and reads 2, and \<open>add\<close> never faults on an out-of-bounds access.
\<close>

theorem add_vector_access_in_bounds:
  "length ([1, 2, 3] :: 32 word list) = 3
   \<and> vector_at ([1, 2, 3] :: 32 word list) 1 = Inr 2
   \<and> add x y out \<noteq> Inl f"
  by (simp add: vector_at_def add_run)

end
